theory Spec2Isabelle
  imports
    Main
    "HOL-Library.Multiset"
    "HOL-Library.Char_ord"
    "HOL-Library.List_Lexorder"
    "HOL-Library.Sublist"
begin

section \<open>The task table\<close>

text \<open>
  The program under study is \<^verbatim>\<open>src/after-review/task_manager.py\<close>: a class
  \<^verbatim>\<open>TaskManager\<close> whose methods each run one SQL statement against a single
  SQLite table \<^verbatim>\<open>tasks\<close>. The table is modelled as the list of its rows in scan
  (rowid) order, together with the AUTOINCREMENT counter that SQLite keeps beside it.
  Every method becomes a function from the store to its result and the store afterwards.

  Python strings are lists of characters; one \<^typ>\<open>char\<close> stands for one code point, so
  \<^const>\<open>length\<close> is Python's \<^verbatim>\<open>len\<close>. The clock reading
  \<^verbatim>\<open>datetime.now().isoformat()\<close> is an argument \<open>now\<close> of the two
  writing methods. TEXT values are compared as SQLite's default collation does, character
  by character, which is the lexicographic order on \<^typ>\<open>string\<close>.

  The engine is taken to carry out every statement it is given: the path on which
  \<^verbatim>\<open>sqlite3.Error\<close> is turned into \<^verbatim>\<open>DatabaseError\<close> (disk failure, locked
  file, an id counter that is used up) is outside the model. What the \<^verbatim>\<open>sqlite3\<close>
  module raises before the engine is reached is inside it: an id that is no 64-bit
  integer cannot be bound to a statement and raises \<^verbatim>\<open>OverflowError\<close>, which the
  connection's handler (\<^verbatim>\<open>except sqlite3.Error\<close>) lets through to the caller.
\<close>

record task =
  task_id :: int
  title :: string
  description :: "string option"
  status :: string
  created_at :: string
  updated_at :: "string option"

record store =
  rows :: "task list"
  seq :: int

text \<open>A freshly initialised database: \<^verbatim>\<open>CREATE TABLE IF NOT EXISTS\<close> on a new file.\<close>

definition empty_store :: store where
  "empty_store = \<lparr>rows = [], seq = 0\<rparr>"

datatype TaskStatus = PENDING | IN_PROGRESS | COMPLETED | HIGH | URGENT

fun status_value :: "TaskStatus \<Rightarrow> string" where
  "status_value PENDING = ''pending''"
| "status_value IN_PROGRESS = ''in_progress''"
| "status_value COMPLETED = ''completed''"
| "status_value HIGH = ''high''"
| "status_value URGENT = ''urgent''"

text \<open>\<^verbatim>\<open>[status.value for status in TaskStatus]\<close>, in declaration order.\<close>

definition valid_statuses :: "string list" where
  "valid_statuses = map status_value [PENDING, IN_PROGRESS, COMPLETED, HIGH, URGENT]"

text \<open>
  \<^verbatim>\<open>ValidationError\<close> carries its message. \<^verbatim>\<open>AttributeError\<close> is what
  \<^verbatim>\<open>None.strip()\<close> raises; the description column is nullable, so a row written
  by another program can reach that call in \<^verbatim>\<open>update_task\<close>.
  \<^verbatim>\<open>OverflowError\<close> is what binding an integer outside the 64-bit range raises.
\<close>

datatype error = ValidationError string | AttributeError | OverflowError

text \<open>The Python integers that fit SQLite's INTEGER, a signed 64-bit number.\<close>

definition sqlite_integer :: "int \<Rightarrow> bool" where
  "sqlite_integer i \<longleftrightarrow> - (2 ^ 63) \<le> i \<and> i \<le> 2 ^ 63 - 1"

section \<open>String primitives\<close>

text \<open>\<^verbatim>\<open>str.isspace\<close> on the code points below 256.\<close>

definition isspace :: "char \<Rightarrow> bool" where
  "isspace c \<longleftrightarrow>
     c \<in> set [CHR 0x09, CHR 0x0A, CHR 0x0B, CHR 0x0C, CHR 0x0D,
               CHR 0x1C, CHR 0x1D, CHR 0x1E, CHR 0x1F, CHR 0x20, CHR 0x85, CHR 0xA0]"

text \<open>\<^verbatim>\<open>str.strip()\<close>: drop the leading and the trailing whitespace.\<close>

definition strip :: "string \<Rightarrow> string" where
  "strip s = rev (dropWhile isspace (rev (dropWhile isspace s)))"

text \<open>\<^verbatim>\<open>sep.join(xs)\<close>\<close>

fun join :: "string \<Rightarrow> string list \<Rightarrow> string" where
  "join sep [] = []"
| "join sep [x] = x"
| "join sep (x # y # ys) = x @ sep @ join sep (y # ys)"

text \<open>
  SQLite's \<^verbatim>\<open>LIKE\<close> without an ESCAPE clause: \<^verbatim>\<open>%\<close> in the pattern matches any
  run of characters, \<^verbatim>\<open>_\<close> matches any one character, and any other character
  matches itself or, for the ASCII letters, its other case. The engine reads both the
  pattern and the text as zero-terminated strings, so each ends at its first U+0000.
\<close>

definition c_string :: "string \<Rightarrow> string" where
  "c_string s = takeWhile (\<lambda>c. c \<noteq> CHR 0x00) s"

definition ascii_lower :: "char \<Rightarrow> char" where
  "ascii_lower c =
     (if CHR ''A'' \<le> c \<and> c \<le> CHR ''Z'' then char_of (of_char c + (32::nat)) else c)"

fun pattern_compare :: "string \<Rightarrow> string \<Rightarrow> bool" where
  "pattern_compare [] [] = True"
| "pattern_compare [] (c # cs) = False"
| "pattern_compare (p # ps) [] = (p = CHR ''%'' \<and> pattern_compare ps [])"
| "pattern_compare (p # ps) (c # cs) =
     (if p = CHR ''%'' then pattern_compare ps (c # cs) \<or> pattern_compare (p # ps) cs
      else if p = CHR ''_'' then pattern_compare ps cs
      else ascii_lower p = ascii_lower c \<and> pattern_compare ps cs)"

definition like :: "string \<Rightarrow> string \<Rightarrow> bool" where
  "like pattern text = pattern_compare (c_string pattern) (c_string text)"

section \<open>Statements\<close>

text \<open>
  \<^verbatim>\<open>ORDER BY created_at DESC\<close>: the rows sorted by descending timestamp. Rows with
  equal timestamps keep their scan order (SQL leaves that order open; no theorem below
  depends on it).
\<close>

fun insert_desc :: "task \<Rightarrow> task list \<Rightarrow> task list" where
  "insert_desc r [] = [r]"
| "insert_desc r (x # xs) =
     (if created_at x \<le> created_at r then r # x # xs else x # insert_desc r xs)"

definition order_by_created_at_desc :: "task list \<Rightarrow> task list" where
  "order_by_created_at_desc rs = foldr insert_desc rs []"

text \<open>
  The id an \<^verbatim>\<open>INTEGER PRIMARY KEY AUTOINCREMENT\<close> column gives the next row:
  one more than the largest id the table has ever held.
\<close>

definition next_rowid :: "store \<Rightarrow> int" where
  "next_rowid s = fold max (map task_id (rows s)) (seq s) + 1"

section \<open>The methods of TaskManager\<close>

definition validate_task_data :: "string \<Rightarrow> string \<Rightarrow> string option \<Rightarrow> error + unit" where
  "validate_task_data title' status' description' =
     (if title' = [] \<or> strip title' = [] then
        Inl (ValidationError ''Title cannot be empty'')
      else if length title' > 200 then
        Inl (ValidationError ''Title too long (max 200 characters)'')
      else if (case description' of None \<Rightarrow> False | Some d \<Rightarrow> d \<noteq> [] \<and> length d > 1000) then
        Inl (ValidationError ''Description too long (max 1000 characters)'')
      else if status' \<notin> set valid_statuses then
        Inl (ValidationError (''Invalid status. Must be one of: '' @ join '', '' valid_statuses))
      else Inr ())"

text \<open>
  \<^verbatim>\<open>add_task(title, description="", status="pending")\<close>; the defaults are written out
  by the caller here.
\<close>

definition add_task ::
  "string \<Rightarrow> string \<Rightarrow> string \<Rightarrow> string \<Rightarrow> store \<Rightarrow> (error + int) \<times> store" where
  "add_task title' description' status' now s =
     (case validate_task_data title' status' (Some description') of
        Inl e \<Rightarrow> (Inl e, s)
      | Inr _ \<Rightarrow>
          (let lastrowid = next_rowid s in
           (Inr lastrowid,
            \<lparr>rows = rows s @
               [\<lparr>task_id = lastrowid, title = strip title',
                 description = Some (strip description'), status = status',
                 created_at = now, updated_at = None\<rparr>],
             seq = lastrowid\<rparr>)))"


definition get_task_by_id :: "int \<Rightarrow> store \<Rightarrow> error + task option" where
  "get_task_by_id i s =
     (if \<not> sqlite_integer i then Inl OverflowError
      else Inr (find (\<lambda>r. task_id r = i) (rows s)))"

definition update_task ::
  "int \<Rightarrow> string option \<Rightarrow> string option \<Rightarrow> string option \<Rightarrow> string \<Rightarrow> store
     \<Rightarrow> (error + bool) \<times> store" where
  "update_task i title' description' status' now s =
     (case get_task_by_id i s of
        Inl e \<Rightarrow> (Inl e, s)
      | Inr None \<Rightarrow> (Inr False, s)
      | Inr (Some existing_task) \<Rightarrow>
          (let new_title = (case title' of Some t \<Rightarrow> t | None \<Rightarrow> title existing_task);
               new_description =
                 (case description' of Some d \<Rightarrow> Some d | None \<Rightarrow> description existing_task);
               new_status = (case status' of Some st \<Rightarrow> st | None \<Rightarrow> status existing_task)
           in case validate_task_data new_title new_status new_description of
                Inl e \<Rightarrow> (Inl e, s)
              | Inr _ \<Rightarrow>
                  (case new_description of
                     None \<Rightarrow> (Inl AttributeError, s)
                   | Some d \<Rightarrow>
                       (Inr True,
                        s\<lparr>rows :=
                            map (\<lambda>r. if task_id r = i
                                      then r\<lparr>title := strip new_title,
                                             description := Some (strip d),
                                             status := new_status,
                                             updated_at := Some now\<rparr>
                                      else r)
                                (rows s)\<rparr>))))"

definition delete_task :: "int \<Rightarrow> store \<Rightarrow> (error + bool) \<times> store" where
  "delete_task i s =
     (if \<not> sqlite_integer i then (Inl OverflowError, s)
      else
        (let rowcount = length (filter (\<lambda>r. task_id r = i) (rows s)) in
         (Inr (rowcount > 0), s\<lparr>rows := filter (\<lambda>r. task_id r \<noteq> i) (rows s)\<rparr>)))"

definition search_tasks :: "string \<Rightarrow> store \<Rightarrow> task list" where
  "search_tasks search_term s =
     order_by_created_at_desc
       (filter (\<lambda>r. like (''%'' @ search_term @ ''%'') (title r)) (rows s))"

definition filter_by_status :: "string \<Rightarrow> store \<Rightarrow> error + task list" where
  "filter_by_status status' s =
     (if status' \<notin> set valid_statuses then
        Inl (ValidationError (''Invalid status: '' @ status'))
      else Inr (order_by_created_at_desc (filter (\<lambda>r. status r = status') (rows s))))"

definition get_priority_tasks :: "store \<Rightarrow> task list" where
  "get_priority_tasks s =
     order_by_created_at_desc
       (filter (\<lambda>r. status r \<in> set [status_value HIGH, status_value URGENT]) (rows s))"

section \<open>Reachable stores\<close>

text \<open>
  The stores the program can produce: from a fresh database, by any sequence of calls of
  the three writing methods, with any arguments and any clock reading. A call that raises
  leaves the store it found.
\<close>

inductive reachable :: "store \<Rightarrow> bool" where
  reachable_init: "reachable empty_store"
| reachable_add:
    "reachable s \<Longrightarrow> reachable (snd (add_task title' description' status' now s))"
| reachable_update:
    "reachable s \<Longrightarrow> reachable (snd (update_task i title' description' status' now s))"
| reachable_delete:
    "reachable s \<Longrightarrow> reachable (snd (delete_task i s))"

text \<open>What every row of a reachable store satisfies.\<close>

definition row_ok :: "task \<Rightarrow> bool" where
  "row_ok r \<longleftrightarrow>
     title r \<noteq> [] \<and> strip (title r) = title r \<and> length (title r) \<le> 200 \<and>
     (case description r of None \<Rightarrow> False | Some d \<Rightarrow> strip d = d \<and> length d \<le> 1000) \<and>
     status r \<in> set valid_statuses"

definition store_inv :: "store \<Rightarrow> bool" where
  "store_inv s \<longleftrightarrow>
     list_all row_ok (rows s) \<and> distinct (map task_id (rows s)) \<and>
     list_all (\<lambda>r. task_id r \<le> seq s) (rows s)"

section \<open>Facts about the string primitives\<close>

lemma strip_Nil: "strip [] = []"
  by (simp add: strip_def)

lemma length_strip_le: "length (strip s) \<le> length s"
  unfolding strip_def
  by (metis length_dropWhile_le length_rev order_trans)

lemma rtrim_prefix: "rev (dropWhile P (rev a)) @ rev (takeWhile P (rev a)) = a"
proof -
  have "rev (takeWhile P (rev a) @ dropWhile P (rev a)) = a" by simp
  then show ?thesis by (simp only: rev_append)
qed

lemma rtrim_no_lead:
  assumes "a = [] \<or> \<not> P (hd a)"
  shows "dropWhile P (rev (dropWhile P (rev a))) = rev (dropWhile P (rev a))"
proof (cases "rev (dropWhile P (rev a))")
  case Nil
  show ?thesis by (simp only: Nil dropWhile.simps)
next
  case (Cons x xs)
  with rtrim_prefix [of P a] have "a = x # xs @ rev (takeWhile P (rev a))" by simp
  then have "hd a = x" "a \<noteq> []" by (metis list.sel(1), metis list.distinct(1))
  with assms have "\<not> P x" by simp
  with Cons show ?thesis by simp
qed

lemma strip_idem: "strip (strip s) = strip s"
proof -
  let ?a = "dropWhile isspace s"
  have "?a = [] \<or> \<not> isspace (hd ?a)" using hd_dropWhile by blast
  then have "dropWhile isspace (strip s) = strip s"
    unfolding strip_def by (rule rtrim_no_lead)
  then show ?thesis
    by (simp add: strip_def)
qed

section \<open>Facts about ORDER BY\<close>

lemma mset_insert_desc: "mset (insert_desc r xs) = add_mset r (mset xs)"
  by (induction xs) auto

lemma mset_order: "mset (order_by_created_at_desc rs) = mset rs"
  unfolding order_by_created_at_desc_def
  by (induction rs) (auto simp: mset_insert_desc)

lemma set_insert_desc: "set (insert_desc r xs) = insert r (set xs)"
  by (induction xs) auto

lemma set_order: "set (order_by_created_at_desc rs) = set rs"
  unfolding order_by_created_at_desc_def
  by (induction rs) (auto simp: set_insert_desc)

lemma sorted_insert_desc:
  "sorted_wrt (\<lambda>a b. created_at b \<le> created_at a) xs \<Longrightarrow>
   sorted_wrt (\<lambda>a b. created_at b \<le> created_at a) (insert_desc r xs)"
  by (induction xs) (auto simp: set_insert_desc)

lemma sorted_order:
  "sorted_wrt (\<lambda>a b. created_at b \<le> created_at a) (order_by_created_at_desc rs)"
  unfolding order_by_created_at_desc_def
  by (induction rs) (auto simp: sorted_insert_desc)

section \<open>Facts about the methods\<close>

lemma fold_max_ge: "a \<le> fold max xs (a::int)"
proof (induction xs arbitrary: a)
  case Nil
  then show ?case by simp
next
  case (Cons x xs)
  have "a \<le> max x a" by simp
  also have "\<dots> \<le> fold max xs (max x a)" by (rule Cons.IH)
  finally show ?case by simp
qed

lemma fold_max_mem: "x \<in> set xs \<Longrightarrow> x \<le> fold max xs (a::int)"
proof (induction xs arbitrary: a)
  case Nil
  then show ?case by simp
next
  case (Cons y ys)
  show ?case
  proof (cases "x = y")
    case True
    have "max y a \<le> fold max ys (max y a)" by (rule fold_max_ge)
    with True show ?thesis by simp
  next
    case False
    with Cons show ?thesis by simp
  qed
qed

lemma next_rowid_fresh: "r \<in> set (rows s) \<Longrightarrow> task_id r < next_rowid s"
  using fold_max_mem [of "task_id r" "map task_id (rows s)" "seq s"]
  by (simp add: next_rowid_def)


lemma find_map_update:
  assumes "find (\<lambda>x. task_id x = i) rs = Some r" and "\<And>x. task_id (f x) = task_id x"
  shows "find (\<lambda>x. task_id x = i) (map (\<lambda>x. if task_id x = i then f x else x) rs) = Some (f r)"
  using assms by (induction rs) (auto split: if_splits)

lemma validate_Inr_iff:
  "validate_task_data t st d = Inr () \<longleftrightarrow>
     strip t \<noteq> [] \<and> length t \<le> 200 \<and>
     (case d of None \<Rightarrow> True | Some x \<Rightarrow> length x \<le> 1000) \<and> st \<in> set valid_statuses"
  by (auto simp: validate_task_data_def strip_Nil split: option.splits)

lemma validate_fails_iff:
  "(\<exists>m. validate_task_data t st d = Inl (ValidationError m)) \<longleftrightarrow>
     strip t = [] \<or> 200 < length t \<or> (\<exists>x. d = Some x \<and> 1000 < length x) \<or>
     st \<notin> set valid_statuses"
  by (auto simp: validate_task_data_def strip_Nil split: option.splits)

lemma add_task_valid:
  assumes "validate_task_data t st (Some d) = Inr ()"
  shows "add_task t d st now s =
     (Inr (next_rowid s),
      \<lparr>rows = rows s @
         [\<lparr>task_id = next_rowid s, title = strip t, description = Some (strip d),
           status = st, created_at = now, updated_at = None\<rparr>],
       seq = next_rowid s\<rparr>)"
  using assms by (simp add: add_task_def Let_def)

lemma fst_add_task:
  "fst (add_task t d st now s) =
     (case validate_task_data t st (Some d) of Inl e \<Rightarrow> Inl e | Inr _ \<Rightarrow> Inr (next_rowid s))"
  by (simp add: add_task_def Let_def split: sum.splits)



lemma get_task_by_id_Inr:
  "get_task_by_id i s = Inr x \<longleftrightarrow> sqlite_integer i \<and> find (\<lambda>r. task_id r = i) (rows s) = x"
  by (simp add: get_task_by_id_def)

lemma get_task_by_id_mem:
  "get_task_by_id i s = Inr (Some r) \<Longrightarrow> r \<in> set (rows s) \<and> task_id r = i"
  by (auto simp: get_task_by_id_Inr find_Some_iff)

lemma fst_update_task_found:
  assumes "get_task_by_id i s = Inr (Some r)"
  shows "fst (update_task i nt nd ns now s) =
     (case validate_task_data (case nt of Some x \<Rightarrow> x | None \<Rightarrow> title r)
             (case ns of Some x \<Rightarrow> x | None \<Rightarrow> status r)
             (case nd of Some x \<Rightarrow> Some x | None \<Rightarrow> description r) of
        Inl e \<Rightarrow> Inl e
      | Inr _ \<Rightarrow>
          (case (case nd of Some x \<Rightarrow> Some x | None \<Rightarrow> description r) of
             None \<Rightarrow> Inl AttributeError | Some _ \<Rightarrow> Inr True))"
  using assms by (simp add: update_task_def Let_def split: sum.splits option.splits)

lemma update_task_found_valid:
  assumes g: "get_task_by_id i s = Inr (Some r)"
    and v: "validate_task_data (case nt of Some x \<Rightarrow> x | None \<Rightarrow> title r)
             (case ns of Some x \<Rightarrow> x | None \<Rightarrow> status r) (Some d) = Inr ()"
    and d: "(case nd of Some x \<Rightarrow> Some x | None \<Rightarrow> description r) = Some d"
  shows "fst (update_task i nt nd ns now s) = Inr True"
    and "get_task_by_id i (snd (update_task i nt nd ns now s)) =
           Inr (Some (r\<lparr>title := strip (case nt of Some x \<Rightarrow> x | None \<Rightarrow> title r),
                   description := Some (strip d),
                   status := (case ns of Some x \<Rightarrow> x | None \<Rightarrow> status r),
                   updated_at := Some now\<rparr>))"
proof -
  show "fst (update_task i nt nd ns now s) = Inr True"
    using g v d by (simp add: fst_update_task_found)
  let ?f = "\<lambda>x. x\<lparr>title := strip (case nt of Some x \<Rightarrow> x | None \<Rightarrow> title r),
                   description := Some (strip d),
                   status := (case ns of Some x \<Rightarrow> x | None \<Rightarrow> status r),
                   updated_at := Some now\<rparr>"
  have s': "snd (update_task i nt nd ns now s)
      = s\<lparr>rows := map (\<lambda>x. if task_id x = i then ?f x else x) (rows s)\<rparr>"
    using g v d by (simp add: update_task_def Let_def)
  from g have i: "sqlite_integer i" and "find (\<lambda>x. task_id x = i) (rows s) = Some r"
    by (simp_all add: get_task_by_id_Inr)
  then have "find (\<lambda>x. task_id x = i) (map (\<lambda>x. if task_id x = i then ?f x else x) (rows s))
      = Some (?f r)"
    by (intro find_map_update) simp_all
  with i show "get_task_by_id i (snd (update_task i nt nd ns now s)) = Inr (Some (?f r))"
    unfolding s' by (simp add: get_task_by_id_def)
qed

section \<open>The invariant of reachable stores\<close>

lemma row_ok_validate:
  "row_ok r \<Longrightarrow> validate_task_data (title r) (status r) (description r) = Inr ()"
  by (auto simp: row_ok_def validate_Inr_iff split: option.splits)

lemma row_ok_new:
  assumes "validate_task_data t st (Some d) = Inr ()"
  shows "row_ok (r\<lparr>title := strip t, description := Some (strip d), status := st\<rparr>)"
proof -
  from assms have "strip t \<noteq> []" "length t \<le> 200" "length d \<le> 1000" "st \<in> set valid_statuses"
    by (simp_all add: validate_Inr_iff)
  moreover have "length (strip t) \<le> length t" "length (strip d) \<le> length d"
    by (rule length_strip_le)+
  ultimately show ?thesis
    by (simp add: row_ok_def strip_idem)
qed

lemma store_inv_empty: "store_inv empty_store"
  by (simp add: store_inv_def empty_store_def)

lemma store_inv_add:
  assumes "store_inv s"
  shows "store_inv (snd (add_task t d st now s))"
proof (cases "validate_task_data t st (Some d)")
  case (Inl e)
  with assms show ?thesis by (simp add: add_task_def)
next
  case (Inr u)
  then have v: "validate_task_data t st (Some d) = Inr ()" by simp
  let ?r = "\<lparr>task_id = next_rowid s, title = strip t, description = Some (strip d),
              status = st, created_at = now, updated_at = None\<rparr>"
  have "row_ok (?r\<lparr>title := strip t, description := Some (strip d), status := st\<rparr>)"
    using v by (rule row_ok_new)
  then have ok: "row_ok ?r" by simp
  have fresh: "next_rowid s \<notin> task_id ` set (rows s)"
    using next_rowid_fresh by fastforce
  have le: "\<forall>x\<in>set (rows s). task_id x \<le> next_rowid s"
    using next_rowid_fresh by fastforce
  from assms ok fresh le show ?thesis
    by (simp add: add_task_valid [OF v] store_inv_def list_all_iff)
qed

lemma store_inv_update:
  assumes "store_inv s"
  shows "store_inv (snd (update_task i nt nd ns now s))"
proof (cases "\<exists>r. get_task_by_id i s = Inr (Some r)")
  case False
  then have "snd (update_task i nt nd ns now s) = s"
    by (auto simp: update_task_def split: sum.splits option.splits)
  with assms show ?thesis by simp
next
  case True
  then obtain r where g: "get_task_by_id i s = Inr (Some r)" by blast
  let ?t = "case nt of Some x \<Rightarrow> x | None \<Rightarrow> title r"
  let ?st = "case ns of Some x \<Rightarrow> x | None \<Rightarrow> status r"
  let ?d = "case nd of Some x \<Rightarrow> Some x | None \<Rightarrow> description r"
  show ?thesis
  proof (cases "validate_task_data ?t ?st ?d")
    case (Inl e)
    with g assms show ?thesis by (simp add: update_task_def Let_def)
  next
    case (Inr u)
    show ?thesis
    proof (cases ?d)
      case None
      with g Inr assms show ?thesis by (simp add: update_task_def Let_def)
    next
      case (Some d)
      with Inr have v: "validate_task_data ?t ?st (Some d) = Inr ()" by simp
      define f where "f = (\<lambda>x::task. if task_id x = i
                  then x\<lparr>title := strip ?t, description := Some (strip d), status := ?st,
                         updated_at := Some now\<rparr>
                  else x)"
      have s': "snd (update_task i nt nd ns now s) = s\<lparr>rows := map f (rows s)\<rparr>"
        using g Inr Some
        by (simp add: update_task_def Let_def f_def)
      have idf: "task_id (f x) = task_id x" for x by (simp add: f_def)
      then have ids: "map (task_id \<circ> f) (rows s) = map task_id (rows s)"
        by simp
      have ok: "row_ok (f x)" if "row_ok x" for x
        using that row_ok_new [OF v, of x] by (simp add: row_ok_def f_def)
      from assms have "\<forall>x\<in>set (rows s). row_ok x" "\<forall>x\<in>set (rows s). task_id x \<le> seq s"
        by (simp_all add: store_inv_def list_all_iff)
      with ok idf have "list_all row_ok (map f (rows s))"
        and "list_all (\<lambda>x. task_id x \<le> seq s) (map f (rows s))"
        by (simp_all add: list_all_iff)
      moreover from assms have "distinct (map task_id (rows s))"
        by (simp add: store_inv_def)
      with ids have "distinct (map (task_id \<circ> f) (rows s))"
        by (simp only:)
      ultimately show ?thesis
        unfolding s' store_inv_def by simp
    qed
  qed
qed

lemma store_inv_delete:
  assumes "store_inv s"
  shows "store_inv (snd (delete_task i s))"
  using assms
  by (simp add: delete_task_def Let_def store_inv_def list_all_iff distinct_map_filter)

lemma reachable_store_inv: "reachable s \<Longrightarrow> store_inv s"
  by (induction rule: reachable.induct)
    (simp_all add: store_inv_empty store_inv_add store_inv_update store_inv_delete)

lemma reachable_row_ok: "reachable s \<Longrightarrow> r \<in> set (rows s) \<Longrightarrow> row_ok r"
  using reachable_store_inv by (auto simp: store_inv_def list_all_iff)

section \<open>Claims\<close>



text \<open>
  C2. Validation, and so \<^verbatim>\<open>add_task\<close>, fails with \<^verbatim>\<open>ValidationError\<close> exactly
  when the title is empty or only whitespace, the title has more than 200 characters, the
  description has more than 1000 characters, or the status is not of the enumeration;
  \<^verbatim>\<open>update_task\<close> on a stored task fails so exactly when the merged values fail
  validation. A title of exactly 200 characters passes, a longer one always fails.
\<close>

theorem validation_failure_iff:
  "((\<exists>m. validate_task_data t st d = Inl (ValidationError m)) \<longleftrightarrow>
      strip t = [] \<or> 200 < length t \<or> (\<exists>x. d = Some x \<and> 1000 < length x) \<or>
      st \<notin> set valid_statuses) \<and>
   ((\<exists>m. fst (add_task t dd st now s) = Inl (ValidationError m)) \<longleftrightarrow>
      strip t = [] \<or> 200 < length t \<or> 1000 < length dd \<or> st \<notin> set valid_statuses) \<and>
   (get_task_by_id i s = Inr (Some r) \<longrightarrow>
      ((\<exists>m. fst (update_task i nt nd ns now s) = Inl (ValidationError m)) \<longleftrightarrow>
       (\<exists>m. validate_task_data (case nt of Some x \<Rightarrow> x | None \<Rightarrow> title r)
               (case ns of Some x \<Rightarrow> x | None \<Rightarrow> status r)
               (case nd of Some x \<Rightarrow> Some x | None \<Rightarrow> description r)
             = Inl (ValidationError m)))) \<and>
   (length t1 = 200 \<and> strip t1 \<noteq> [] \<and> length dd \<le> 1000 \<and> st \<in> set valid_statuses \<longrightarrow>
      validate_task_data t1 st (Some dd) = Inr () \<and>
      fst (add_task t1 dd st now s) = Inr (next_rowid s)) \<and>
   (200 < length t2 \<longrightarrow>
      (\<exists>m. validate_task_data t2 st d = Inl (ValidationError m)) \<and>
      (\<exists>m. fst (add_task t2 dd st now s) = Inl (ValidationError m)))"
proof (intro conjI impI)
  show "(\<exists>m. validate_task_data t st d = Inl (ValidationError m)) \<longleftrightarrow>
      strip t = [] \<or> 200 < length t \<or> (\<exists>x. d = Some x \<and> 1000 < length x) \<or>
      st \<notin> set valid_statuses"
    by (rule validate_fails_iff)
  have add_iff: "(\<exists>m. fst (add_task t' dd st now s) = Inl (ValidationError m)) \<longleftrightarrow>
      strip t' = [] \<or> 200 < length t' \<or> 1000 < length dd \<or> st \<notin> set valid_statuses" for t'
    using validate_fails_iff [of t' st "Some dd"]
    by (auto simp: fst_add_task split: sum.splits)
  show "(\<exists>m. fst (add_task t dd st now s) = Inl (ValidationError m)) \<longleftrightarrow>
      strip t = [] \<or> 200 < length t \<or> 1000 < length dd \<or> st \<notin> set valid_statuses"
    by (rule add_iff)
  show "\<exists>m. fst (add_task t2 dd st now s) = Inl (ValidationError m)" if "200 < length t2"
    using that add_iff [of t2] by simp
  show "\<exists>m. validate_task_data t2 st d = Inl (ValidationError m)" if "200 < length t2"
    using that validate_fails_iff [of t2 st d] by simp
next
  assume "get_task_by_id i s = Inr (Some r)"
  then show "(\<exists>m. fst (update_task i nt nd ns now s) = Inl (ValidationError m)) \<longleftrightarrow>
       (\<exists>m. validate_task_data (case nt of Some x \<Rightarrow> x | None \<Rightarrow> title r)
               (case ns of Some x \<Rightarrow> x | None \<Rightarrow> status r)
               (case nd of Some x \<Rightarrow> Some x | None \<Rightarrow> description r)
             = Inl (ValidationError m))"
    by (auto simp: fst_update_task_found split: sum.splits option.splits)
next
  assume a: "length t1 = 200 \<and> strip t1 \<noteq> [] \<and> length dd \<le> 1000 \<and> st \<in> set valid_statuses"
  then show v: "validate_task_data t1 st (Some dd) = Inr ()"
    by (simp add: validate_Inr_iff)
  then show "fst (add_task t1 dd st now s) = Inr (next_rowid s)"
    by (simp add: fst_add_task)
qed

theorem validation_failure_iff_witness:
  "(\<exists>m. validate_task_data ''   '' ''pending'' (Some ''Description'')
        = Inl (ValidationError m)) \<and>
   (\<exists>m. fst (add_task ''Title'' ''Desc'' ''invalid_status'' ''2024-03-01T08:00:00''
               empty_store) = Inl (ValidationError m)) \<and>
   length (replicate 200 CHR ''x'') = 200 \<and>
   validate_task_data (replicate 200 CHR ''x'') ''pending'' (Some ''Description'') = Inr () \<and>
   fst (add_task (replicate 200 CHR ''x'') ''Description'' ''pending''
          ''2024-03-01T08:00:00'' empty_store) = Inr 1 \<and>
   200 < length (replicate 201 CHR ''x'') \<and>
   (\<exists>m. fst (add_task (replicate 201 CHR ''x'') ''Description'' ''pending''
               ''2024-03-01T08:00:00'' empty_store) = Inl (ValidationError m)) \<and>
   get_task_by_id 1 \<lparr>rows = [\<lparr>task_id = 1, title = ''Task'', description = Some '''',
       status = ''pending'', created_at = ''2024-03-01T08:00:00'', updated_at = None\<rparr>],
       seq = 1\<rparr>
     = Inr (Some \<lparr>task_id = 1, title = ''Task'', description = Some '''',
       status = ''pending'', created_at = ''2024-03-01T08:00:00'', updated_at = None\<rparr>) \<and>
   (\<exists>m. fst (update_task 1 (Some '''') None None ''2024-03-01T09:00:00''
        \<lparr>rows = [\<lparr>task_id = 1, title = ''Task'', description = Some '''',
           status = ''pending'', created_at = ''2024-03-01T08:00:00'', updated_at = None\<rparr>],
         seq = 1\<rparr>) = Inl (ValidationError m))"
proof -
  let ?r = "\<lparr>task_id = 1, title = ''Task'', description = Some '''',
       status = ''pending'', created_at = ''2024-03-01T08:00:00'', updated_at = None\<rparr>"
  let ?s = "\<lparr>rows = [?r], seq = 1\<rparr>"
  have x: "\<not> isspace CHR ''x''" by (simp add: isspace_def)
  have sx: "strip (replicate 200 CHR ''x'') = replicate 200 CHR ''x''"
    by (simp add: strip_def dropWhile_replicate x)
  have blank: "strip ''   '' = []" by (simp add: strip_def isspace_def)
  have p: "''pending'' \<in> set valid_statuses" by (simp add: valid_statuses_def)
  have np: "''invalid_status'' \<notin> set valid_statuses" by (simp add: valid_statuses_def)
  have g: "get_task_by_id 1 ?s = Inr (Some ?r)"
    by (simp add: get_task_by_id_def sqlite_integer_def)
  have n1: "next_rowid empty_store = 1" by (simp add: next_rowid_def empty_store_def)
  note k1 = validation_failure_iff
      [where t = "''   ''" and st = "''pending''" and d = "Some ''Description''"
         and dd = "''Description''" and now = "''2024-03-01T08:00:00''" and s = empty_store
         and ?t1.0 = "replicate 200 CHR ''x''" and ?t2.0 = "replicate 201 CHR ''x''"]
  note k2 = validation_failure_iff
      [where t = "''Title''" and st = "''invalid_status''" and dd = "''Desc''"
         and now = "''2024-03-01T08:00:00''" and s = empty_store]
  note k3 = validation_failure_iff
      [where i = 1 and s = ?s and r = ?r and nt = "Some ''''" and nd = None and ns = None
         and now = "''2024-03-01T09:00:00''"]
  have c1: "\<exists>m. validate_task_data ''   '' ''pending'' (Some ''Description'')
        = Inl (ValidationError m)"
    using k1 blank by blast
  have c2: "\<exists>m. fst (add_task ''Title'' ''Desc'' ''invalid_status'' ''2024-03-01T08:00:00''
               empty_store) = Inl (ValidationError m)"
    using k2 np by blast
  have l200: "length (replicate 200 CHR ''x'') = 200" by simp
  have l201: "200 < length (replicate 201 CHR ''x'')" by simp
  have sne: "strip (replicate 200 CHR ''x'') \<noteq> []" by (simp add: sx)
  have ld: "length ''Description'' \<le> 1000" by simp
  from k1 l200 sne ld p
  have c3: "validate_task_data (replicate 200 CHR ''x'') ''pending'' (Some ''Description'') = Inr ()"
    and c4: "fst (add_task (replicate 200 CHR ''x'') ''Description'' ''pending''
          ''2024-03-01T08:00:00'' empty_store) = Inr 1"
    unfolding n1 by blast+
  from k1 l201
  have c5: "\<exists>m. fst (add_task (replicate 201 CHR ''x'') ''Description'' ''pending''
               ''2024-03-01T08:00:00'' empty_store) = Inl (ValidationError m)"
    by blast
  have "\<exists>m. validate_task_data '''' ''pending'' (Some '''') = Inl (ValidationError m)"
    by (simp add: validate_task_data_def)
  with k3 g
  have c6: "\<exists>m. fst (update_task 1 (Some '''') None None ''2024-03-01T09:00:00'' ?s)
      = Inl (ValidationError m)"
    by simp
  from c1 c2 l200 c3 c4 l201 c5 g c6 show ?thesis by (intro conjI)
qed



text \<open>
  C4. In every store reachable from a fresh one by \<^verbatim>\<open>add_task\<close>,
  \<^verbatim>\<open>update_task\<close> and \<^verbatim>\<open>delete_task\<close>, the status of every stored task is one
  of pending, in_progress, completed, high, urgent; so \<^verbatim>\<open>filter_by_status\<close> and
  \<^verbatim>\<open>get_priority_tasks\<close> never return a task with any other status.
\<close>

theorem stored_status_enumerated:
  assumes "reachable s"
  shows "(\<forall>r\<in>set (rows s). status r \<in> set valid_statuses) \<and>
         (\<forall>st rs. filter_by_status st s = Inr rs \<longrightarrow>
            (\<forall>r\<in>set rs. status r \<in> set valid_statuses)) \<and>
         (\<forall>r\<in>set (get_priority_tasks s). status r \<in> set valid_statuses) \<and>
         set valid_statuses = {''pending'', ''in_progress'', ''completed'', ''high'', ''urgent''}"
proof (intro conjI)
  show all: "\<forall>r\<in>set (rows s). status r \<in> set valid_statuses"
    using assms reachable_row_ok by (auto simp: row_ok_def)
  show "\<forall>st rs. filter_by_status st s = Inr rs \<longrightarrow>
            (\<forall>r\<in>set rs. status r \<in> set valid_statuses)"
  proof (intro allI impI ballI)
    fix st rs r
    assume "filter_by_status st s = Inr rs" and "r \<in> set rs"
    then have "r \<in> set (rows s)"
      by (auto simp: filter_by_status_def set_order split: if_splits)
    with all show "status r \<in> set valid_statuses" by blast
  qed
  show "\<forall>r\<in>set (get_priority_tasks s). status r \<in> set valid_statuses"
  proof
    fix r
    assume "r \<in> set (get_priority_tasks s)"
    then have "r \<in> set (rows s)"
      by (simp add: get_priority_tasks_def set_order)
    with all show "status r \<in> set valid_statuses" by blast
  qed
  show "set valid_statuses = {''pending'', ''in_progress'', ''completed'', ''high'', ''urgent''}"
    by (simp add: valid_statuses_def)
qed

theorem stored_status_enumerated_witness:
  "reachable (snd (update_task 1 None None (Some ''urgent'') ''2024-03-01T09:00:00''
      (snd (add_task ''Task'' ''Desc'' ''pending'' ''2024-03-01T08:00:00'' empty_store)))) \<and>
   get_priority_tasks (snd (update_task 1 None None (Some ''urgent'') ''2024-03-01T09:00:00''
      (snd (add_task ''Task'' ''Desc'' ''pending'' ''2024-03-01T08:00:00'' empty_store))))
     = [\<lparr>task_id = 1, title = ''Task'', description = Some ''Desc'', status = ''urgent'',
         created_at = ''2024-03-01T08:00:00'', updated_at = Some ''2024-03-01T09:00:00''\<rparr>] \<and>
   ''urgent'' \<in> set valid_statuses"
proof -
  let ?s1 = "snd (add_task ''Task'' ''Desc'' ''pending'' ''2024-03-01T08:00:00'' empty_store)"
  let ?s2 = "snd (update_task 1 None None (Some ''urgent'') ''2024-03-01T09:00:00'' ?s1)"
  let ?r = "\<lparr>task_id = 1, title = ''Task'', description = Some ''Desc'', status = ''urgent'',
         created_at = ''2024-03-01T08:00:00'', updated_at = Some ''2024-03-01T09:00:00''\<rparr>"
  have r: "reachable ?s2"
    by (intro reachable_update reachable_add reachable_init)
  have s1: "?s1 = \<lparr>rows = [\<lparr>task_id = 1, title = ''Task'', description = Some ''Desc'',
                status = ''pending'', created_at = ''2024-03-01T08:00:00'',
                updated_at = None\<rparr>], seq = 1\<rparr>"
    by (simp add: add_task_def validate_task_data_def strip_def isspace_def valid_statuses_def
        next_rowid_def empty_store_def)
  have s2: "?s2 = \<lparr>rows = [?r], seq = 1\<rparr>"
    unfolding s1
    by (simp add: update_task_def get_task_by_id_def sqlite_integer_def validate_task_data_def strip_def
        isspace_def valid_statuses_def)
  have p: "get_priority_tasks ?s2 = [?r]"
    unfolding s2 by (simp add: get_priority_tasks_def order_by_created_at_desc_def)
  from stored_status_enumerated [OF r] have "\<forall>x\<in>set (get_priority_tasks ?s2). status x \<in> set valid_statuses"
    by blast
  then have "''urgent'' \<in> set valid_statuses"
    unfolding p by simp
  with r p show ?thesis by (intro conjI)
qed

text \<open>
  C5. For every id that no stored task has, \<^verbatim>\<open>get_task_by_id\<close> is to return
  \<^verbatim>\<open>None\<close>, \<^verbatim>\<open>update_task\<close> \<^verbatim>\<open>False\<close> and \<^verbatim>\<open>delete_task\<close>
  \<^verbatim>\<open>False\<close>, none of them raising. At an id that is no 64-bit integer the methods
  do not: on a store that holds no task at all, each of the three raises
  \<^verbatim>\<open>OverflowError\<close> for the id \<open>2\<^sup>6\<^sup>3\<close>, which is bound to the statement
  unchecked and is no \<^verbatim>\<open>sqlite3.Error\<close> for the connection's handler to wrap.
\<close>

theorem absent_id_failing_input:
  "rows empty_store = [] \<and>
   get_task_by_id (2 ^ 63) empty_store = Inl OverflowError \<and>
   update_task (2 ^ 63) (Some ''Updated'') None None ''2024-03-01T09:00:00'' empty_store
     = (Inl OverflowError, empty_store) \<and>
   delete_task (2 ^ 63) empty_store = (Inl OverflowError, empty_store)"
proof -
  have n: "\<not> sqlite_integer (2 ^ 63)" by (simp add: sqlite_integer_def)
  have g: "get_task_by_id (2 ^ 63) empty_store = Inl OverflowError"
    using n by (simp add: get_task_by_id_def)
  have u: "update_task (2 ^ 63) (Some ''Updated'') None None ''2024-03-01T09:00:00'' empty_store
     = (Inl OverflowError, empty_store)"
    using g by (simp add: update_task_def)
  have d: "delete_task (2 ^ 63) empty_store = (Inl OverflowError, empty_store)"
    using n by (simp add: delete_task_def)
  have r: "rows empty_store = []" by (simp add: empty_store_def)
  from r g u d show ?thesis by (intro conjI)
qed

text \<open>
  Within the signed 64-bit range the methods do report absence as a value: for such an id
  that no stored task has, \<^verbatim>\<open>get_task_by_id\<close> returns \<^verbatim>\<open>None\<close>,
  \<^verbatim>\<open>update_task\<close> returns \<^verbatim>\<open>False\<close> and \<^verbatim>\<open>delete_task\<close> returns
  \<^verbatim>\<open>False\<close>, each with the store untouched, and a second \<^verbatim>\<open>delete_task\<close> of
  the same id, on any store, returns \<^verbatim>\<open>False\<close>.
\<close>

lemma absent_id_in_range:
  assumes "sqlite_integer i" and "i \<notin> task_id ` set (rows s)"
  shows "get_task_by_id i s = Inr None \<and>
         update_task i nt nd ns now s = (Inr False, s) \<and>
         delete_task i s = (Inr False, s) \<and>
         fst (delete_task i (snd (delete_task i s0))) = Inr False"
proof (intro conjI)
  from assms have nf: "\<forall>r\<in>set (rows s). task_id r \<noteq> i" by auto
  with assms show g: "get_task_by_id i s = Inr None"
    by (simp add: get_task_by_id_def find_None_iff)
  then show "update_task i nt nd ns now s = (Inr False, s)"
    by (simp add: update_task_def)
  from nf have "filter (\<lambda>r. task_id r = i) (rows s) = []"
    and "filter (\<lambda>r. task_id r \<noteq> i) (rows s) = rows s"
    by (simp_all add: filter_empty_conv filter_id_conv)
  with assms show "delete_task i s = (Inr False, s)"
    by (simp add: delete_task_def)
  from assms show "fst (delete_task i (snd (delete_task i s0))) = Inr False"
    by (simp add: delete_task_def filter_empty_conv)
qed

lemma absent_id_in_range_example:
  "sqlite_integer 9999 \<and>
   9999 \<notin> task_id ` set (rows (snd (add_task ''To Delete'' ''Desc'' ''pending''
       ''2024-03-01T08:00:00'' empty_store))) \<and>
   get_task_by_id 9999 (snd (add_task ''To Delete'' ''Desc'' ''pending''
       ''2024-03-01T08:00:00'' empty_store)) = Inr None \<and>
   fst (update_task 9999 (Some ''Updated'') None None ''2024-03-01T09:00:00''
     (snd (add_task ''To Delete'' ''Desc'' ''pending'' ''2024-03-01T08:00:00'' empty_store)))
     = Inr False \<and>
   fst (delete_task 9999 (snd (add_task ''To Delete'' ''Desc'' ''pending''
       ''2024-03-01T08:00:00'' empty_store))) = Inr False \<and>
   fst (delete_task 1 (snd (add_task ''To Delete'' ''Desc'' ''pending''
       ''2024-03-01T08:00:00'' empty_store))) = Inr True \<and>
   fst (delete_task 9999 (snd (delete_task 9999 (snd (add_task ''To Delete'' ''Desc''
       ''pending'' ''2024-03-01T08:00:00'' empty_store))))) = Inr False"
proof -
  let ?s = "snd (add_task ''To Delete'' ''Desc'' ''pending'' ''2024-03-01T08:00:00'' empty_store)"
  have s: "?s = \<lparr>rows = [\<lparr>task_id = 1, title = ''To Delete'', description = Some ''Desc'',
                status = ''pending'', created_at = ''2024-03-01T08:00:00'',
                updated_at = None\<rparr>], seq = 1\<rparr>"
    by (simp add: add_task_def validate_task_data_def strip_def isspace_def valid_statuses_def
        next_rowid_def empty_store_def)
  have r: "sqlite_integer 9999" by (simp add: sqlite_integer_def)
  have h: "9999 \<notin> task_id ` set (rows ?s)" unfolding s by simp
  have d1: "fst (delete_task 1 ?s) = Inr True"
    unfolding s by (simp add: delete_task_def sqlite_integer_def)
  from absent_id_in_range
    [OF r h, of "Some ''Updated''" None None "''2024-03-01T09:00:00''" ?s] r h d1
  show ?thesis by simp
qed

text \<open>
  C6. When \<^verbatim>\<open>add_task\<close> or \<^verbatim>\<open>update_task\<close> fails with
  \<^verbatim>\<open>ValidationError\<close>, the store after the call is the store before it.
\<close>

theorem validation_failure_keeps_store:
  "(fst (add_task t d st now s) = Inl (ValidationError m) \<longrightarrow>
      snd (add_task t d st now s) = s) \<and>
   (fst (update_task i nt nd ns now s) = Inl (ValidationError m) \<longrightarrow>
      snd (update_task i nt nd ns now s) = s)"
proof (intro conjI impI)
  assume "fst (add_task t d st now s) = Inl (ValidationError m)"
  then have "validate_task_data t st (Some d) = Inl (ValidationError m)"
    by (simp add: fst_add_task split: sum.splits)
  then show "snd (add_task t d st now s) = s"
    by (simp add: add_task_def)
next
  assume f: "fst (update_task i nt nd ns now s) = Inl (ValidationError m)"
  show "snd (update_task i nt nd ns now s) = s"
  proof (cases "\<exists>r. get_task_by_id i s = Inr (Some r)")
    case False
    then show ?thesis
      by (auto simp: update_task_def split: sum.splits option.splits)
  next
    case True
    then obtain r where "get_task_by_id i s = Inr (Some r)" by blast
    with f show ?thesis
      by (auto simp: update_task_def Let_def split: sum.splits option.splits)
  qed
qed

theorem validation_failure_keeps_store_witness:
  "fst (add_task ''Task'' '''' ''pending'' ''2024-03-01T08:00:00'' empty_store) = Inr 1 \<and>
   fst (add_task ''   '' ''Description'' ''pending'' ''2024-03-01T09:00:00''
          (snd (add_task ''Task'' '''' ''pending'' ''2024-03-01T08:00:00'' empty_store)))
     = Inl (ValidationError ''Title cannot be empty'') \<and>
   snd (add_task ''   '' ''Description'' ''pending'' ''2024-03-01T09:00:00''
          (snd (add_task ''Task'' '''' ''pending'' ''2024-03-01T08:00:00'' empty_store)))
     = snd (add_task ''Task'' '''' ''pending'' ''2024-03-01T08:00:00'' empty_store) \<and>
   fst (update_task 1 None None (Some ''invalid_status'') ''2024-03-01T09:00:00''
          (snd (add_task ''Task'' '''' ''pending'' ''2024-03-01T08:00:00'' empty_store)))
     = Inl (ValidationError
         ''Invalid status. Must be one of: pending, in_progress, completed, high, urgent'') \<and>
   snd (update_task 1 None None (Some ''invalid_status'') ''2024-03-01T09:00:00''
          (snd (add_task ''Task'' '''' ''pending'' ''2024-03-01T08:00:00'' empty_store)))
     = snd (add_task ''Task'' '''' ''pending'' ''2024-03-01T08:00:00'' empty_store)"
proof -
  let ?s = "snd (add_task ''Task'' '''' ''pending'' ''2024-03-01T08:00:00'' empty_store)"
  have s: "?s = \<lparr>rows = [\<lparr>task_id = 1, title = ''Task'', description = Some '''',
                status = ''pending'', created_at = ''2024-03-01T08:00:00'',
                updated_at = None\<rparr>], seq = 1\<rparr>"
    by (simp add: add_task_def validate_task_data_def strip_def isspace_def valid_statuses_def
        next_rowid_def empty_store_def)
  have a0: "fst (add_task ''Task'' '''' ''pending'' ''2024-03-01T08:00:00'' empty_store) = Inr 1"
    by (simp add: add_task_def validate_task_data_def strip_def isspace_def valid_statuses_def
        next_rowid_def empty_store_def)
  have a: "fst (add_task ''   '' ''Description'' ''pending'' ''2024-03-01T09:00:00'' ?s)
     = Inl (ValidationError ''Title cannot be empty'')"
    by (simp add: add_task_def validate_task_data_def strip_def isspace_def)
  have u: "fst (update_task 1 None None (Some ''invalid_status'') ''2024-03-01T09:00:00'' ?s)
     = Inl (ValidationError
         ''Invalid status. Must be one of: pending, in_progress, completed, high, urgent'')"
    unfolding s
    by (simp add: update_task_def get_task_by_id_def sqlite_integer_def validate_task_data_def strip_def
        isspace_def valid_statuses_def)
  note k = validation_failure_keeps_store
      [of "''   ''" "''Description''" "''pending''" "''2024-03-01T09:00:00''" ?s _
          1 None None "Some ''invalid_status''"]
  from a k have a': "snd (add_task ''   '' ''Description'' ''pending'' ''2024-03-01T09:00:00'' ?s) = ?s"
    by blast
  from u k have u': "snd (update_task 1 None None (Some ''invalid_status'')
      ''2024-03-01T09:00:00'' ?s) = ?s"
    by blast
  from a0 a a' u u' show ?thesis by (intro conjI)
qed

text \<open>
  C7. For a stored task with id \<open>i\<close>, \<^verbatim>\<open>update_task(i)\<close> with no title, description
  or status returns \<^verbatim>\<open>True\<close>; afterwards the task has the id, title, description,
  status and \<^verbatim>\<open>created_at\<close> it had, and its \<^verbatim>\<open>updated_at\<close> is the time of the
  call.
\<close>

theorem update_without_fields:
  assumes "reachable s" and "get_task_by_id i s = Inr (Some r)"
  shows "fst (update_task i None None None now s) = Inr True \<and>
         get_task_by_id i (snd (update_task i None None None now s)) =
           Inr (Some (r\<lparr>updated_at := Some now\<rparr>))"
proof -
  from assms have ok: "row_ok r"
    using get_task_by_id_mem reachable_row_ok by blast
  then obtain d where d: "description r = Some d" "strip d = d"
    by (auto simp: row_ok_def split: option.splits)
  from ok have t: "strip (title r) = title r" by (simp add: row_ok_def)
  from ok d have v: "validate_task_data (case None of Some x \<Rightarrow> x | None \<Rightarrow> title r)
      (case None of Some x \<Rightarrow> x | None \<Rightarrow> status r) (Some d) = Inr ()"
    using row_ok_validate [of r] by simp
  have m: "(case None of Some x \<Rightarrow> Some x | None \<Rightarrow> description r) = Some d"
    using d by simp
  have same: "r\<lparr>title := strip (title r), description := Some (strip d), status := status r,
      updated_at := Some now\<rparr> = r\<lparr>updated_at := Some now\<rparr>"
    using d t by simp
  from update_task_found_valid [OF assms(2) v m, of now] same
  show ?thesis by simp
qed

theorem update_without_fields_witness:
  "reachable (snd (add_task ''  Task '' ''Desc'' ''high'' ''2024-03-01T08:00:00'' empty_store)) \<and>
   get_task_by_id 1 (snd (add_task ''  Task '' ''Desc'' ''high'' ''2024-03-01T08:00:00''
       empty_store))
     = Inr (Some \<lparr>task_id = 1, title = ''Task'', description = Some ''Desc'', status = ''high'',
         created_at = ''2024-03-01T08:00:00'', updated_at = None\<rparr>) \<and>
   fst (update_task 1 None None None ''2024-03-02T10:30:00''
      (snd (add_task ''  Task '' ''Desc'' ''high'' ''2024-03-01T08:00:00'' empty_store)))
     = Inr True \<and>
   get_task_by_id 1 (snd (update_task 1 None None None ''2024-03-02T10:30:00''
      (snd (add_task ''  Task '' ''Desc'' ''high'' ''2024-03-01T08:00:00'' empty_store))))
     = Inr (Some \<lparr>task_id = 1, title = ''Task'', description = Some ''Desc'', status = ''high'',
         created_at = ''2024-03-01T08:00:00'', updated_at = Some ''2024-03-02T10:30:00''\<rparr>)"
proof -
  let ?s1 = "snd (add_task ''  Task '' ''Desc'' ''high'' ''2024-03-01T08:00:00'' empty_store)"
  let ?r = "\<lparr>task_id = 1, title = ''Task'', description = Some ''Desc'', status = ''high'',
         created_at = ''2024-03-01T08:00:00'', updated_at = None\<rparr>"
  have r: "reachable ?s1"
    by (intro reachable_add reachable_init)
  have s1: "?s1 = \<lparr>rows = [?r], seq = 1\<rparr>"
    by (simp add: add_task_def validate_task_data_def strip_def isspace_def valid_statuses_def
        next_rowid_def empty_store_def)
  have g: "get_task_by_id 1 ?s1 = Inr (Some ?r)"
    unfolding s1 by (simp add: get_task_by_id_def sqlite_integer_def)
  from update_without_fields [OF r g, of "''2024-03-02T10:30:00''"] r g
  show ?thesis by simp
qed

text \<open>
  C8. \<^verbatim>\<open>get_priority_tasks\<close> returns exactly the stored tasks whose status is high
  or urgent, newest first by \<^verbatim>\<open>created_at\<close>. On a fresh store, after
  \<^verbatim>\<open>add_task("X")\<close> and \<^verbatim>\<open>add_task("Y", status="urgent")\<close> it returns exactly
  the task Y.
\<close>

theorem priority_tasks_newest_first:
  "mset (get_priority_tasks s) =
     mset (filter (\<lambda>r. status r = ''high'' \<or> status r = ''urgent'') (rows s)) \<and>
   sorted_wrt (\<lambda>a b. created_at b \<le> created_at a) (get_priority_tasks s) \<and>
   get_priority_tasks
     (snd (add_task ''Y'' '''' ''urgent'' t2 (snd (add_task ''X'' '''' ''pending'' t1 empty_store))))
     = [\<lparr>task_id = 2, title = ''Y'', description = Some '''', status = ''urgent'',
         created_at = t2, updated_at = None\<rparr>]"
proof (intro conjI)
  have "(\<lambda>r. status r \<in> set [status_value HIGH, status_value URGENT])
      = (\<lambda>r. status r = ''high'' \<or> status r = ''urgent'')"
    by auto
  then show "mset (get_priority_tasks s) =
     mset (filter (\<lambda>r. status r = ''high'' \<or> status r = ''urgent'') (rows s))"
    by (simp add: get_priority_tasks_def mset_order)
  show "sorted_wrt (\<lambda>a b. created_at b \<le> created_at a) (get_priority_tasks s)"
    unfolding get_priority_tasks_def by (rule sorted_order)
  have s1: "snd (add_task ''X'' '''' ''pending'' t1 empty_store)
      = \<lparr>rows = [\<lparr>task_id = 1, title = ''X'', description = Some '''', status = ''pending'',
            created_at = t1, updated_at = None\<rparr>], seq = 1\<rparr>"
    by (simp add: add_task_def validate_task_data_def strip_def isspace_def valid_statuses_def
        next_rowid_def empty_store_def)
  have s2: "snd (add_task ''Y'' '''' ''urgent'' t2 (snd (add_task ''X'' '''' ''pending'' t1 empty_store)))
      = \<lparr>rows = [\<lparr>task_id = 1, title = ''X'', description = Some '''', status = ''pending'',
            created_at = t1, updated_at = None\<rparr>,
          \<lparr>task_id = 2, title = ''Y'', description = Some '''', status = ''urgent'',
            created_at = t2, updated_at = None\<rparr>], seq = 2\<rparr>"
    unfolding s1
    by (simp add: add_task_def validate_task_data_def strip_def isspace_def valid_statuses_def
        next_rowid_def)
  show "get_priority_tasks
     (snd (add_task ''Y'' '''' ''urgent'' t2 (snd (add_task ''X'' '''' ''pending'' t1 empty_store))))
     = [\<lparr>task_id = 2, title = ''Y'', description = Some '''', status = ''urgent'',
         created_at = t2, updated_at = None\<rparr>]"
    unfolding s2 by (simp add: get_priority_tasks_def order_by_created_at_desc_def)
qed

text \<open>
  C9. \<^verbatim>\<open>search_tasks(term)\<close> is to return exactly the stored tasks whose title
  contains the term as a substring. The method puts the term between two \<^verbatim>\<open>%\<close> and
  hands it to \<^verbatim>\<open>LIKE\<close> without escaping it, so \<^verbatim>\<open>_\<close> and \<^verbatim>\<open>%\<close> inside
  the term are read as wildcards. On a store holding the one title
  \<^verbatim>\<open>Python Tutorial\<close>, \<^verbatim>\<open>search_tasks("_")\<close> and \<^verbatim>\<open>search_tasks("%")\<close>
  both return that task, although its title contains neither character; a substring
  search returns the empty list there.
\<close>

theorem search_wildcard_failing_input:
  "search_tasks ''_''
     (snd (add_task ''Python Tutorial'' ''Learn Python'' ''pending'' ''2024-03-01T08:00:00''
        empty_store))
     = [\<lparr>task_id = 1, title = ''Python Tutorial'', description = Some ''Learn Python'',
         status = ''pending'', created_at = ''2024-03-01T08:00:00'', updated_at = None\<rparr>] \<and>
   \<not> sublist ''_'' ''Python Tutorial'' \<and>
   search_tasks ''%''
     (snd (add_task ''Python Tutorial'' ''Learn Python'' ''pending'' ''2024-03-01T08:00:00''
        empty_store))
     = [\<lparr>task_id = 1, title = ''Python Tutorial'', description = Some ''Learn Python'',
         status = ''pending'', created_at = ''2024-03-01T08:00:00'', updated_at = None\<rparr>] \<and>
   \<not> sublist ''%'' ''Python Tutorial''"
proof -
  let ?r = "\<lparr>task_id = 1, title = ''Python Tutorial'', description = Some ''Learn Python'',
         status = ''pending'', created_at = ''2024-03-01T08:00:00'', updated_at = None\<rparr>"
  have s1: "snd (add_task ''Python Tutorial'' ''Learn Python'' ''pending''
      ''2024-03-01T08:00:00'' empty_store) = \<lparr>rows = [?r], seq = 1\<rparr>"
    by (simp add: add_task_def validate_task_data_def strip_def isspace_def valid_statuses_def
        next_rowid_def empty_store_def)
  have l1: "like ''%_%'' ''Python Tutorial''" by code_simp
  have l2: "like ''%%%'' ''Python Tutorial''" by code_simp
  have a: "search_tasks ''_'' \<lparr>rows = [?r], seq = 1\<rparr> = [?r]"
    using l1 by (simp add: search_tasks_def order_by_created_at_desc_def)
  have b: "search_tasks ''%'' \<lparr>rows = [?r], seq = 1\<rparr> = [?r]"
    using l2 by (simp add: search_tasks_def order_by_created_at_desc_def)
  have c: "\<not> sublist ''_'' ''Python Tutorial''"
    by (simp add: sublist_Cons_right)
  have d: "\<not> sublist ''%'' ''Python Tutorial''"
    by (simp add: sublist_Cons_right)
  from a c b d show ?thesis unfolding s1 by (intro conjI)
qed

text \<open>
  C10. \<^verbatim>\<open>update_task\<close> takes an empty string as a value, not as a field left out:
  for a stored task, \<^verbatim>\<open>update_task(id, description="")\<close> returns \<^verbatim>\<open>True\<close> and
  stores the empty description, where passing \<^verbatim>\<open>None\<close> keeps the stored one; and
  \<^verbatim>\<open>update_task(id, title="")\<close> fails with \<^verbatim>\<open>ValidationError\<close> and keeps the
  stored title.
\<close>

theorem update_empty_string_is_supplied:
  assumes "reachable s" and "get_task_by_id i s = Inr (Some r)"
  shows "fst (update_task i None (Some '''') None now s) = Inr True \<and>
         get_task_by_id i (snd (update_task i None (Some '''') None now s)) =
           Inr (Some (r\<lparr>description := Some '''', updated_at := Some now\<rparr>)) \<and>
         (\<exists>r'. get_task_by_id i (snd (update_task i None None None now s)) = Inr (Some r') \<and>
               description r' = description r) \<and>
         update_task i (Some '''') nd ns now s =
           (Inl (ValidationError ''Title cannot be empty''), s)"
proof (intro conjI)
  from assms have ok: "row_ok r"
    using get_task_by_id_mem reachable_row_ok by blast
  then have t: "strip (title r) = title r" by (simp add: row_ok_def)
  from ok have v: "validate_task_data (case None of Some x \<Rightarrow> x | None \<Rightarrow> title r)
      (case None of Some x \<Rightarrow> x | None \<Rightarrow> status r) (Some '''') = Inr ()"
    by (simp add: validate_Inr_iff row_ok_def)
  have m: "(case Some '''' of Some x \<Rightarrow> Some x | None \<Rightarrow> description r) = Some ''''"
    by simp
  have same: "r\<lparr>title := strip (title r), description := Some (strip ''''), status := status r,
      updated_at := Some now\<rparr> = r\<lparr>description := Some '''', updated_at := Some now\<rparr>"
    using t by (simp add: strip_Nil)
  from update_task_found_valid [OF assms(2) v m, of now] same
  show "fst (update_task i None (Some '''') None now s) = Inr True"
    and "get_task_by_id i (snd (update_task i None (Some '''') None now s)) =
           Inr (Some (r\<lparr>description := Some '''', updated_at := Some now\<rparr>))"
    by simp_all
  from ok obtain d where d: "description r = Some d" "strip d = d"
    by (auto simp: row_ok_def split: option.splits)
  from ok d have v': "validate_task_data (case None of Some x \<Rightarrow> x | None \<Rightarrow> title r)
      (case None of Some x \<Rightarrow> x | None \<Rightarrow> status r) (Some d) = Inr ()"
    using row_ok_validate [of r] by simp
  have m': "(case None of Some x \<Rightarrow> Some x | None \<Rightarrow> description r) = Some d"
    using d by simp
  from update_task_found_valid(2) [OF assms(2) v' m', of now] d
  show "\<exists>r'. get_task_by_id i (snd (update_task i None None None now s)) = Inr (Some r') \<and>
               description r' = description r"
    by simp
  from assms(2) show "update_task i (Some '''') nd ns now s =
           (Inl (ValidationError ''Title cannot be empty''), s)"
    by (simp add: update_task_def validate_task_data_def Let_def)
qed

theorem update_empty_string_is_supplied_witness:
  "reachable (snd (add_task ''Task'' ''Desc'' ''high'' ''2024-03-01T08:00:00'' empty_store)) \<and>
   get_task_by_id 1 (snd (add_task ''Task'' ''Desc'' ''high'' ''2024-03-01T08:00:00''
       empty_store))
     = Inr (Some \<lparr>task_id = 1, title = ''Task'', description = Some ''Desc'', status = ''high'',
         created_at = ''2024-03-01T08:00:00'', updated_at = None\<rparr>) \<and>
   fst (update_task 1 None (Some '''') None ''2024-03-02T10:30:00''
      (snd (add_task ''Task'' ''Desc'' ''high'' ''2024-03-01T08:00:00'' empty_store)))
     = Inr True \<and>
   get_task_by_id 1 (snd (update_task 1 None (Some '''') None ''2024-03-02T10:30:00''
      (snd (add_task ''Task'' ''Desc'' ''high'' ''2024-03-01T08:00:00'' empty_store))))
     = Inr (Some \<lparr>task_id = 1, title = ''Task'', description = Some '''', status = ''high'',
         created_at = ''2024-03-01T08:00:00'', updated_at = Some ''2024-03-02T10:30:00''\<rparr>) \<and>
   fst (update_task 1 (Some '''') None None ''2024-03-02T10:30:00''
      (snd (add_task ''Task'' ''Desc'' ''high'' ''2024-03-01T08:00:00'' empty_store)))
     = Inl (ValidationError ''Title cannot be empty'')"
proof -
  let ?s1 = "snd (add_task ''Task'' ''Desc'' ''high'' ''2024-03-01T08:00:00'' empty_store)"
  let ?r = "\<lparr>task_id = 1, title = ''Task'', description = Some ''Desc'', status = ''high'',
         created_at = ''2024-03-01T08:00:00'', updated_at = None\<rparr>"
  have r: "reachable ?s1"
    by (intro reachable_add reachable_init)
  have s1: "?s1 = \<lparr>rows = [?r], seq = 1\<rparr>"
    by (simp add: add_task_def validate_task_data_def strip_def isspace_def valid_statuses_def
        next_rowid_def empty_store_def)
  have g: "get_task_by_id 1 ?s1 = Inr (Some ?r)"
    unfolding s1 by (simp add: get_task_by_id_def sqlite_integer_def)
  from update_empty_string_is_supplied [OF r g, of "''2024-03-02T10:30:00''" None None] r g
  show ?thesis by simp
qed

end
